theory Spec2Isabelle
  imports Complex_Main
begin

section \<open>Detection postprocessor: processOutput (RealTimeDetector)\<close>

text \<open>
  JavaScript numbers are modelled as reals. The box rows that \<open>processOutput\<close> computes
  and returns are rounded as the source rounds them: every arithmetic operation to
  double precision, and the rows stored in the box tensor to single precision. Elsewhere
  numbers are compared or drawn, not returned, and rounding is left out. Overflow,
  subnormal numbers, NaN and the infinities are outside the model. A row of the
  transposed proposal matrix is destructured by the source into its first four entries
  and the class scores that follow; the record keeps those parts. A box is the
  four-entry row the source pushes.
\<close>

record proposal =
  x_center :: real
  y_center :: real
  width :: real
  height :: real
  classScores :: "real list"

type_synonym box = "real \<times> real \<times> real \<times> real"

type_synonym detections = "box list \<times> real list \<times> int list"

definition confidenceThreshold :: real where
  "confidenceThreshold = 0.5"

subsection \<open>Rounding to a binary floating-point format\<close>

text \<open>
  Round to nearest, ties to even, for a format with \<open>q\<close> fraction bits (a significand of
  \<open>q + 1\<close> bits): a positive number is scaled by powers of two into the range from \<open>2^q\<close>
  up to \<open>2^(q+1)\<close>, rounded to an integer there, and scaled back.
\<close>

definition roundHalfEven :: "real \<Rightarrow> int" where
  "roundHalfEven x =
     (let f = \<lfloor>x\<rfloor>; r = x - of_int f
      in if r < 1 / 2 then f else if r > 1 / 2 then f + 1 else if even f then f else f + 1)"

function scaleDown :: "nat \<Rightarrow> real \<Rightarrow> real" where
  "scaleDown q x =
     (if x \<ge> 2 ^ Suc q then 2 * scaleDown q (x / 2) else of_int (roundHalfEven x))"
  by pat_completeness auto
termination
proof (relation "measure (\<lambda>(q, x). nat \<lceil>x\<rceil>)")
  show "wf (measure (\<lambda>(q, x). nat \<lceil>x\<rceil>))" by simp
next
  fix q :: nat and x :: real
  assume a: "2 ^ Suc q \<le> x"
  have "(2::real) \<le> 2 ^ Suc q" by (simp add: self_le_power)
  with a have x2: "2 \<le> x" by linarith
  then have "x / 2 \<le> x - 1" by simp
  then have "\<lceil>x / 2\<rceil> \<le> \<lceil>x - 1\<rceil>" by (rule ceiling_mono)
  then have "\<lceil>x / 2\<rceil> < \<lceil>x\<rceil>" by simp
  moreover have "0 < \<lceil>x\<rceil>" using x2 by (simp add: ceiling_less_iff less_ceiling_iff)
  ultimately show "((q, x / 2), (q, x)) \<in> measure (\<lambda>(q, x). nat \<lceil>x\<rceil>)" by simp
qed

function scaleUp :: "nat \<Rightarrow> real \<Rightarrow> real" where
  "scaleUp q x =
     (if 0 < x \<and> x < 2 ^ q then scaleUp q (2 * x) / 2 else scaleDown q x)"
  by pat_completeness auto
termination
proof (relation "measure (\<lambda>(q, x). nat \<lceil>2 ^ q / x\<rceil>)")
  show "wf (measure (\<lambda>(q, x). nat \<lceil>2 ^ q / x\<rceil>))" by simp
next
  fix q :: nat and x :: real
  assume a: "0 < x \<and> x < 2 ^ q"
  define y where "y = 2 ^ q / x"
  have y1: "1 < y" using a by (simp add: y_def)
  have half: "2 ^ q / (2 * x) = y / 2" by (simp add: y_def)
  have "\<lceil>y / 2\<rceil> < \<lceil>y\<rceil>"
  proof (cases "y \<le> 2")
    case True
    then have "\<lceil>y / 2\<rceil> \<le> 1" by (simp add: ceiling_le_iff)
    moreover have "1 < \<lceil>y\<rceil>" using y1 by (simp add: less_ceiling_iff)
    ultimately show ?thesis by linarith
  next
    case False
    then have "y / 2 \<le> y - 1" by simp
    then have "\<lceil>y / 2\<rceil> \<le> \<lceil>y - 1\<rceil>" by (rule ceiling_mono)
    then show ?thesis by simp
  qed
  moreover have "0 < \<lceil>y\<rceil>" using y1 by (simp add: less_ceiling_iff)
  ultimately show "((q, 2 * x), (q, x)) \<in> measure (\<lambda>(q, x). nat \<lceil>2 ^ q / x\<rceil>)"
    by (simp add: half y_def[symmetric])
qed

declare scaleDown.simps [simp del] scaleUp.simps [simp del]

definition roundTo :: "nat \<Rightarrow> real \<Rightarrow> real" where
  "roundTo q x = (if x < 0 then - scaleUp q (- x) else scaleUp q x)"

text \<open>
  A JavaScript number is a double (52 fraction bits); a \<open>float32\<close> tensor stores singles
  (23 fraction bits).
\<close>

definition toDouble :: "real \<Rightarrow> real" where
  "toDouble = roundTo 52"

definition toFloat32 :: "real \<Rightarrow> real" where
  "toFloat32 = roundTo 23"

subsection \<open>The scan over the proposals\<close>

text \<open>
  The inner \<open>classScores.forEach\<close>: the running pair \<open>(maxScore, classId)\<close> starts at
  \<open>(-1, -1)\<close> and is replaced whenever a score is strictly larger.
\<close>

fun bestClass :: "real list \<Rightarrow> nat \<Rightarrow> real \<times> int \<Rightarrow> real \<times> int" where
  "bestClass [] i acc = acc"
| "bestClass (score # rest) i (maxScore, classId) =
     bestClass rest (Suc i) (if score > maxScore then (score, int i) else (maxScore, classId))"

text \<open>
  The row pushed for a proposal; each of \<open>/\<close>, \<open>-\<close> and \<open>*\<close> yields a double.
\<close>

definition toBox :: "proposal \<Rightarrow> real \<Rightarrow> real \<Rightarrow> box" where
  "toBox p widthRatio heightRatio =
     (toDouble (toDouble (x_center p - toDouble (width p / 2)) * widthRatio),
      toDouble (toDouble (y_center p - toDouble (height p / 2)) * heightRatio),
      toDouble (width p * widthRatio),
      toDouble (height p * heightRatio))"

text \<open>
  The outer \<open>proposals.forEach\<close>: the three arrays grow by \<open>push\<close> for every proposal
  whose best score is strictly above the confidence threshold.
\<close>

fun scanProposals :: "proposal list \<Rightarrow> real \<Rightarrow> real \<Rightarrow> detections \<Rightarrow> detections" where
  "scanProposals [] widthRatio heightRatio acc = acc"
| "scanProposals (p # ps) widthRatio heightRatio (boxes, scores, classes) =
     (case bestClass (classScores p) 0 (-1, -1) of
        (maxScore, classId) \<Rightarrow>
          if maxScore > confidenceThreshold
          then scanProposals ps widthRatio heightRatio
                 (boxes @ [toBox p widthRatio heightRatio], scores @ [maxScore], classes @ [classId])
          else scanProposals ps widthRatio heightRatio (boxes, scores, classes))"

subsection \<open>The library call tf.image.nonMaxSuppressionAsync\<close>

text \<open>
  The suppression itself is a call into TensorFlow.js, which is not part of the
  repository. It is modelled by the library's contract for the arguments the source
  passes (no score threshold, no soft suppression): every row of the box tensor is read
  as \<open>[y1, x1, y2, x2]\<close>, two opposite corners in either order; candidates are taken by
  descending score, equal scores by ascending index; a candidate is dropped when its
  overlap with an already selected box reaches the threshold; selection stops at
  \<open>maxOutputSize\<close> boxes.
\<close>

definition intersectionOverUnion :: "box \<Rightarrow> box \<Rightarrow> real" where
  "intersectionOverUnion bi bj =
     (case bi of (i0, i1, i2, i3) \<Rightarrow>
      case bj of (j0, j1, j2, j3) \<Rightarrow>
        let yminI = min i0 i2; xminI = min i1 i3;
            ymaxI = max i0 i2; xmaxI = max i1 i3;
            yminJ = min j0 j2; xminJ = min j1 j3;
            ymaxJ = max j0 j2; xmaxJ = max j1 j3;
            areaI = (ymaxI - yminI) * (xmaxI - xminI);
            areaJ = (ymaxJ - yminJ) * (xmaxJ - xminJ)
        in if areaI \<le> 0 \<or> areaJ \<le> 0 then 0
           else
             let intersectionYmin = max yminI yminJ;
                 intersectionXmin = max xminI xminJ;
                 intersectionYmax = min ymaxI ymaxJ;
                 intersectionXmax = min xmaxI xmaxJ;
                 intersectionArea =
                   max (intersectionYmax - intersectionYmin) 0 *
                   max (intersectionXmax - intersectionXmin) 0
             in intersectionArea / (areaI + areaJ - intersectionArea))"

text \<open>Candidate indices in the order they are tried: a stable sort by descending score.\<close>

definition candidateOrder :: "real list \<Rightarrow> nat list" where
  "candidateOrder scores = sort_key (\<lambda>i. - (scores ! i)) [0..<length scores]"

fun selectLoop :: "box list \<Rightarrow> nat \<Rightarrow> real \<Rightarrow> nat list \<Rightarrow> nat list \<Rightarrow> nat list" where
  "selectLoop boxes maxOutputSize iouThreshold [] selected = selected"
| "selectLoop boxes maxOutputSize iouThreshold (c # candidates) selected =
     (if length selected < maxOutputSize
      then (if list_ex (\<lambda>j. intersectionOverUnion (boxes ! c) (boxes ! j) \<ge> iouThreshold) selected
            then selectLoop boxes maxOutputSize iouThreshold candidates selected
            else selectLoop boxes maxOutputSize iouThreshold candidates (selected @ [c]))
      else selected)"

definition nonMaxSuppression :: "box list \<Rightarrow> real list \<Rightarrow> nat \<Rightarrow> real \<Rightarrow> nat list" where
  "nonMaxSuppression boxes scores maxOutputSize iouThreshold =
     selectLoop boxes maxOutputSize iouThreshold (candidateOrder scores) []"

text \<open>\<open>tf.gather\<close> on a one-dimensional index tensor: the rows at the given indices.\<close>

definition gather :: "'a list \<Rightarrow> nat list \<Rightarrow> 'a list" where
  "gather xs indices = map (\<lambda>i. xs ! i) indices"

subsection \<open>processOutput\<close>

text \<open>
  \<open>tf.tensor2d(boxes)\<close> stores the rows in a \<open>float32\<close> tensor; the suppression call
  and the gather read that tensor, and \<open>array()\<close> hands its values back. The scores are
  entries of the model's \<open>float32\<close> output, copied without arithmetic, and pass through
  their tensor unchanged.
\<close>

definition float32Row :: "box \<Rightarrow> box" where
  "float32Row row =
     (case row of (a, b, c, d) \<Rightarrow> (toFloat32 a, toFloat32 b, toFloat32 c, toFloat32 d))"

definition tensor2d :: "box list \<Rightarrow> box list" where
  "tensor2d rows = map float32Row rows"

text \<open>
  \<open>processOutputWith\<close> is the body of \<open>processOutput\<close> with the suppression call as its
  first argument; \<open>processOutput\<close> supplies the library call.
\<close>

definition processOutputWith ::
  "(box list \<Rightarrow> real list \<Rightarrow> nat \<Rightarrow> real \<Rightarrow> nat list) \<Rightarrow>
   proposal list \<Rightarrow> real \<Rightarrow> real \<Rightarrow> detections" where
  "processOutputWith nms proposals widthRatio heightRatio =
     (case scanProposals proposals widthRatio heightRatio ([], [], []) of
        (boxes, scores, classes) \<Rightarrow>
          if length boxes = 0 then ([], [], [])
          else
            let boxTensors = tensor2d boxes;
                indices = nms boxTensors scores 20 0.45
            in (gather boxTensors indices, gather scores indices, gather classes indices))"

definition processOutput :: "proposal list \<Rightarrow> real \<Rightarrow> real \<Rightarrow> detections" where
  "processOutput = processOutputWith nonMaxSuppression"

text \<open>
  The overlap of two output boxes as the renderer reads them, \<open>(x, y, width, height)\<close>:
  area of the intersection divided by area of the union, following the glossary of the
  specification.
\<close>

definition boxArea :: "box \<Rightarrow> real" where
  "boxArea b = (case b of (x, y, w, h) \<Rightarrow> max w 0 * max h 0)"

definition boxIntersection :: "box \<Rightarrow> box \<Rightarrow> real" where
  "boxIntersection a b =
     (case a of (ax, ay, aw, ah) \<Rightarrow>
      case b of (bx, by, bw, bh) \<Rightarrow>
        max (min (ax + aw) (bx + bw) - max ax bx) 0 *
        max (min (ay + ah) (by + bh) - max ay by) 0)"

definition boxIoU :: "box \<Rightarrow> box \<Rightarrow> real" where
  "boxIoU a b =
     (let inter = boxIntersection a b; union = boxArea a + boxArea b - inter
      in if union \<le> 0 then 0 else inter / union)"

text \<open>
  Derived readings of a proposal: the pair the inner loop ends with, and the test the
  outer loop applies to it.
\<close>

definition maxScoreOf :: "proposal \<Rightarrow> real" where
  "maxScoreOf p = fst (bestClass (classScores p) 0 (-1, -1))"

definition classIdOf :: "proposal \<Rightarrow> int" where
  "classIdOf p = snd (bestClass (classScores p) 0 (-1, -1))"

definition accepted :: "proposal \<Rightarrow> bool" where
  "accepted p = (maxScoreOf p > confidenceThreshold)"

section \<open>Classification postprocessor: the top-K step of predict\<close>

text \<open>
  \<open>IMAGENET_CLASSES\<close> is imported from a file that is not among the sources; it is a
  parameter here, a lookup that may miss. The fallback of the source is a template
  string built from the index (its literal part is not ASCII); \<open>UnknownId i\<close> stands for
  that string. An empty name is falsy in JavaScript and takes the fallback too.
\<close>

datatype class_label = ClassName string | UnknownId nat

record prediction =
  className :: class_label
  probability :: real

definition labelOf :: "(nat \<Rightarrow> string option) \<Rightarrow> nat \<Rightarrow> class_label" where
  "labelOf IMAGENET_CLASSES i =
     (case IMAGENET_CLASSES i of
        None \<Rightarrow> UnknownId i
      | Some name \<Rightarrow> if name = [] then UnknownId i else ClassName name)"

definition pairWithLabels :: "(nat \<Rightarrow> string option) \<Rightarrow> real list \<Rightarrow> prediction list" where
  "pairWithLabels IMAGENET_CLASSES probabilities =
     map (\<lambda>i. \<lparr>className = labelOf IMAGENET_CLASSES i, probability = probabilities ! i\<rparr>)
       [0..<length probabilities]"

text \<open>
  \<open>Array.prototype.sort\<close> is stable; with the comparator \<open>b.probability - a.probability\<close>
  it orders by descending probability. \<open>slice(0, 3)\<close> keeps at most three entries.
\<close>

definition topK :: "(nat \<Rightarrow> string option) \<Rightarrow> real list \<Rightarrow> prediction list" where
  "topK IMAGENET_CLASSES probabilities =
     take 3 (sort_key (\<lambda>a. - probability a) (pairWithLabels IMAGENET_CLASSES probabilities))"

section \<open>Ticks and loops\<close>

text \<open>
  What a tick can change is kept in a page state: the content of the canvas overlay, the
  lines written to the console, and the external steps performed so far, in order. A
  tick whose inference call throws ends as a rejected promise; the state it leaves
  behind is kept with the error (\<open>Inl\<close>), since nothing is rolled back. No tick handles
  such a rejection, and neither do the loops that call the ticks: the browser reports a
  rejected promise that nobody handles on the console.
\<close>

datatype error = InferenceError

datatype step = Preprocess | Inference | Render

datatype label = ScoreLabel string real | PercentLabel string int

datatype drawcmd =
    StrokeRect real real real real
  | FillRect real real real real
  | FillText label real real

record page =
  canvas :: "drawcmd list"
  console :: "string list"
  steps :: "step list"

type_synonym tick_result = "(error \<times> page) + page"



subsection \<open>The YOLO detector: runDetectionLoop, drawBoundingBoxes, startLoop\<close>

text \<open>
  Everything a tick reads from its surroundings: the refs, the video state, the canvas
  context, the sizes, and what \<open>model.execute\<close> does on the current frame (\<open>Inl\<close> when it
  throws). \<open>COCO_CLASSES\<close> and \<open>measureText\<close> are not among the sources and are parameters.
  A label is kept as the class name and the score it is formatted from.
\<close>

record detector_env =
  modelLoaded :: bool
  videoMounted :: bool
  canvasMounted :: bool
  readyState :: nat
  contextAvailable :: bool
  canvasWidth :: real
  videoWidth :: real
  videoHeight :: real
  inputWidth :: real
  inputHeight :: real
  modelOutput :: "error + proposal list"
  COCO_CLASSES :: "int \<Rightarrow> string"
  measureText :: "label \<Rightarrow> real"

definition drawBoundingBoxes ::
  "(int \<Rightarrow> string) \<Rightarrow> (label \<Rightarrow> real) \<Rightarrow> real \<Rightarrow> box list \<Rightarrow> real list \<Rightarrow> int list \<Rightarrow> drawcmd list" where
  "drawBoundingBoxes classNames textWidthOf cw boxes scores classes =
     concat (map (\<lambda>i.
       case boxes ! i of (x, y, w, h) \<Rightarrow>
         let label = ScoreLabel (classNames (classes ! i)) (scores ! i);
             mirroredX = cw - x - w;
             textWidth = textWidthOf label;
             textHeight = 16;
             labelY = (if y > textHeight then y else textHeight + 4)
         in [StrokeRect mirroredX y w h,
             FillRect mirroredX (labelY - textHeight) (textWidth + 4) (textHeight + 4),
             FillText label (mirroredX + 2) labelY])
       [0..<length scores])"

text \<open>
  The part of a tick after its guards: preprocessing, the inference call, postprocessing
  and rendering. \<open>clearRect\<close> empties the overlay before the boxes are drawn.
\<close>

definition tickBody :: "detector_env \<Rightarrow> page \<Rightarrow> tick_result" where
  "tickBody env pg =
     (let pg1 = pg\<lparr>steps := steps pg @ [Preprocess]\<rparr>;
          pg2 = pg1\<lparr>steps := steps pg1 @ [Inference]\<rparr>
      in case modelOutput env of
           Inl e \<Rightarrow> Inl (e, pg2)
         | Inr proposals \<Rightarrow>
             (case processOutput proposals
                     (toDouble (videoWidth env / inputWidth env))
                     (toDouble (videoHeight env / inputHeight env)) of
                (boxes, scores, classes) \<Rightarrow>
                  Inr (pg2\<lparr>canvas := drawBoundingBoxes (COCO_CLASSES env) (measureText env)
                                        (canvasWidth env) boxes scores classes,
                           steps := steps pg2 @ [Render]\<rparr>)))"

text \<open>The exported \<open>runDetectionLoop\<close>: the model is an argument and cannot be null.\<close>

definition runDetectionLoop :: "detector_env \<Rightarrow> page \<Rightarrow> tick_result" where
  "runDetectionLoop env pg =
     (if readyState env < 3 then Inr pg
      else if \<not> contextAvailable env then Inr pg
      else tickBody env pg)"

text \<open>The callback of the same name inside the RealTimeDetector component.\<close>

definition runDetectionLoopCallback :: "detector_env \<Rightarrow> page \<Rightarrow> tick_result" where
  "runDetectionLoopCallback env pg =
     (if \<not> modelLoaded env \<or> \<not> videoMounted env \<or> \<not> canvasMounted env \<or> readyState env < 3
      then Inr pg
      else if \<not> contextAvailable env then Inr pg
      else tickBody env pg)"

text \<open>
  \<open>loop\<close> awaits one tick and only then asks for the next animation frame. The list holds
  the surroundings of the successive frames; a rejected tick rejects \<open>loop\<close> before it
  reaches \<open>requestAnimationFrame\<close>.
\<close>

fun loop :: "detector_env list \<Rightarrow> page \<Rightarrow> tick_result" where
  "loop [] pg = Inr pg"
| "loop (env # frames) pg =
     (case runDetectionLoopCallback env pg of
        Inl failed \<Rightarrow> Inl failed
      | Inr pg' \<Rightarrow> loop frames pg')"


subsection \<open>The COCO-SSD detector: detectObjects, drawDetection, the interval\<close>

record detectedObject =
  bbox :: box
  classOf :: string
  score :: real

record ssd_env =
  ssdModelLoaded :: bool
  ssdVideoMounted :: bool
  ssdCanvasMounted :: bool
  ssdReadyState :: nat
  ssdContextAvailable :: bool
  detect :: "error + detectedObject list"

definition drawDetection :: "detectedObject list \<Rightarrow> drawcmd list \<Rightarrow> drawcmd list" where
  "drawDetection detections cv =
     cv @ concat (map (\<lambda>prediction.
       case bbox prediction of (x, y, w, h) \<Rightarrow>
         let text = PercentLabel (classOf prediction) \<lfloor>score prediction * 100 + 1 / 2\<rfloor>
         in [StrokeRect x y w h, FillText text x (if y > 10 then y - 5 else 10)])
       detections)"

definition detectObjects :: "ssd_env \<Rightarrow> page \<Rightarrow> tick_result" where
  "detectObjects env pg =
     (if ssdModelLoaded env \<and> ssdVideoMounted env \<and> ssdReadyState env = 4
      then
        (let pg1 = pg\<lparr>steps := steps pg @ [Inference]\<rparr>
         in case detect env of
              Inl e \<Rightarrow> Inl (e, pg1)
            | Inr predictions \<Rightarrow>
                if ssdCanvasMounted env
                then (if ssdContextAvailable env
                      then Inr (pg1\<lparr>canvas := drawDetection predictions [],
                                    steps := steps pg1 @ [Render]\<rparr>)
                      else Inr pg1)
                else Inr pg1)
      else Inr pg)"


subsection \<open>Ticks in flight\<close>

text \<open>
  The two sequential readings above let every tick settle before the next one starts.
  Whether that is so is decided by the order of two kinds of events: a callback fires
  and starts a tick, which runs up to its first pending \<open>await\<close>; later the awaited
  promise settles and the rest of the tick runs. A tick is in flight between its two
  events. A schedule is a list of events; an event that cannot happen in a state makes
  the schedule impossible (\<open>None\<close>).
\<close>

datatype event = Fire | Settle | Reject

text \<open>
  The animation-frame loop: \<open>startLoop\<close> calls \<open>loop\<close> itself, so the first tick is in
  flight and no frame is requested. The browser runs \<open>loop\<close> again only for a requested
  frame, and \<open>loop\<close> requests a frame only after its \<open>await\<close> has returned; when the
  awaited tick is rejected, \<open>loop\<close> is left before the request.
\<close>

record raf_state =
  ticksInFlight :: nat
  frameRequested :: bool

definition rafStart :: raf_state where
  "rafStart = \<lparr>ticksInFlight = 1, frameRequested = False\<rparr>"

definition rafStep :: "event \<Rightarrow> raf_state \<Rightarrow> raf_state option" where
  "rafStep ev s =
     (case ev of
        Fire \<Rightarrow>
          if frameRequested s
          then Some \<lparr>ticksInFlight = Suc (ticksInFlight s), frameRequested = False\<rparr>
          else None
      | Settle \<Rightarrow>
          if 0 < ticksInFlight s
          then Some \<lparr>ticksInFlight = ticksInFlight s - 1, frameRequested = True\<rparr>
          else None
      | Reject \<Rightarrow>
          if 0 < ticksInFlight s
          then Some \<lparr>ticksInFlight = ticksInFlight s - 1, frameRequested = frameRequested s\<rparr>
          else None)"

fun rafRun :: "event list \<Rightarrow> raf_state \<Rightarrow> raf_state option" where
  "rafRun [] s = Some s"
| "rafRun (ev # evs) s = (case rafStep ev s of None \<Rightarrow> None | Some s' \<Rightarrow> rafRun evs s')"

text \<open>
  The interval: the timer fires every 100 ms whatever the earlier calls of \<open>detectObjects\<close>
  are doing, and each call that reaches \<open>await model.detect\<close> stays in flight until that
  promise settles. The state is the number of ticks in flight.
\<close>

definition intervalStep :: "event \<Rightarrow> nat \<Rightarrow> nat option" where
  "intervalStep ev n =
     (case ev of
        Fire \<Rightarrow> Some (Suc n)
      | Settle \<Rightarrow> if 0 < n then Some (n - 1) else None
      | Reject \<Rightarrow> if 0 < n then Some (n - 1) else None)"

fun intervalRun :: "event list \<Rightarrow> nat \<Rightarrow> nat option" where
  "intervalRun [] n = Some n"
| "intervalRun (ev # evs) n =
     (case intervalStep ev n of None \<Rightarrow> None | Some n' \<Rightarrow> intervalRun evs n')"

section \<open>Tensor bookkeeping: executeInference\<close>

text \<open>
  The engine counts tensors as \<open>tf.memory().numTensors\<close> does: every operation that
  returns a tensor registers one new tensor, and \<open>tf.dispose\<close> removes the tensors it is
  given. Tensors are identified by the order of their creation.
\<close>

type_synonym tensor = nat

record engine =
  nextId :: nat
  live :: "tensor list"

definition alloc :: "engine \<Rightarrow> tensor \<times> engine" where
  "alloc e = (nextId e, e\<lparr>nextId := Suc (nextId e), live := live e @ [nextId e]\<rparr>)"

definition dispose :: "tensor list \<Rightarrow> engine \<Rightarrow> engine" where
  "dispose ts e = e\<lparr>live := filter (\<lambda>t. \<not> List.member ts t) (live e)\<rparr>"

definition numTensors :: "engine \<Rightarrow> nat" where
  "numTensors e = length (live e)"

text \<open>
  One \<open>alloc\<close> per tensor-valued call of the source, in source order: the first
  \<open>model.execute\<close>, \<open>abs\<close>, \<open>max\<close>, \<open>div\<close> (scale), \<open>div\<close>, \<open>round\<close>, \<open>tf.tensor\<close>, \<open>mul\<close>,
  \<open>tf.zeros\<close>, the second \<open>model.execute\<close>; then the \<open>tf.dispose\<close> list as written.
\<close>

definition executeInference :: "tensor \<Rightarrow> engine \<Rightarrow> tensor \<times> engine" where
  "executeInference inputTensor e0 =
     (case alloc e0 of (middleTensor, e1) \<Rightarrow>
      case alloc e1 of (absOfMiddle, e2) \<Rightarrow>
      case alloc e2 of (maxAbs, e3) \<Rightarrow>
      case alloc e3 of (scale, e4) \<Rightarrow>
      case alloc e4 of (divided, e5) \<Rightarrow>
      case alloc e5 of (quantizedTensor, e6) \<Rightarrow>
      case alloc e6 of (fromArray, e7) \<Rightarrow>
      case alloc e7 of (dequantizedTensor, e8) \<Rightarrow>
      case alloc e8 of (dummyInput, e9) \<Rightarrow>
      case alloc e9 of (predictions, e10) \<Rightarrow>
        (predictions,
         dispose [inputTensor, middleTensor, maxAbs, scale, quantizedTensor,
                  dequantizedTensor, dummyInput] e10))"

section \<open>Properties of the rounding\<close>

text \<open>
  A number \<open>n / 2^k\<close> whose numerator fits the significand is left unchanged; in
  particular the integers and small dyadic fractions of the examples below.
\<close>

lemma roundHalfEven_of_int: "roundHalfEven (of_int n) = n"
  by (simp add: roundHalfEven_def)

lemma scaleDown_exact:
  assumes "x \<in> \<int>" and "x < 2 ^ Suc q"
  shows "scaleDown q x = x"
proof -
  from assms(1) obtain n where n: "x = of_int n" by (auto elim: Ints_cases)
  have "scaleDown q x = of_int (roundHalfEven x)"
    using assms(2) by (subst scaleDown.simps) simp
  then show ?thesis by (simp add: n roundHalfEven_of_int)
qed

lemma scaleUp_exact:
  "0 \<le> x \<Longrightarrow> x * 2 ^ k \<in> \<int> \<Longrightarrow> x * 2 ^ k < 2 ^ Suc q \<Longrightarrow> scaleUp q x = x"
proof (induction q x arbitrary: k rule: scaleUp.induct)
  case (1 q x)
  show ?case
  proof (cases "0 < x \<and> x < 2 ^ q")
    case True
    have "scaleUp q (2 * x) = 2 * x"
    proof (cases k)
      case 0
      then have "x \<in> \<int>" using "1.prems" by simp
      then have "2 * x * 2 ^ 0 \<in> \<int>" by simp
      moreover have "2 * x * 2 ^ 0 < 2 ^ Suc q" using True by simp
      moreover have "0 \<le> 2 * x" using True by simp
      ultimately show ?thesis using "1.IH"[OF True, of 0] by blast
    next
      case (Suc j)
      then have e: "2 * x * 2 ^ j = x * 2 ^ k" by simp
      have "0 \<le> 2 * x" using True by simp
      then show ?thesis using "1.IH"[OF True, of j] "1.prems" unfolding e by blast
    qed
    moreover have "scaleUp q x = scaleUp q (2 * x) / 2" using True by (subst scaleUp.simps) auto
    ultimately show ?thesis by simp
  next
    case False
    have le: "x \<le> x * 2 ^ k"
    proof -
      have "(1::real) \<le> 2 ^ k" by simp
      then have "x * 1 \<le> x * 2 ^ k" using "1.prems"(1) by (rule mult_left_mono)
      then show ?thesis by simp
    qed
    then have lt: "x < 2 ^ Suc q" using "1.prems"(3) by linarith
    have xz: "x \<in> \<int>"
    proof (cases k)
      case 0
      then show ?thesis using "1.prems" by simp
    next
      case (Suc j)
      show ?thesis
      proof (cases "x = 0")
        case True
        then show ?thesis by simp
      next
        case nz: False
        then have big: "2 ^ q \<le> x" using False "1.prems"(1) by auto
        have "(2::real) \<le> 2 ^ k" using Suc by (simp add: self_le_power)
        then have "2 ^ q * 2 \<le> x * 2 ^ k"
          using big "1.prems"(1) by (intro mult_mono) auto
        then have False using "1.prems"(3) by simp
        then show ?thesis ..
      qed
    qed
    have "scaleUp q x = scaleDown q x" using False by (subst scaleUp.simps) auto
    then show ?thesis by (simp add: scaleDown_exact[OF xz lt])
  qed
qed

lemma roundTo_exact:
  assumes "x * 2 ^ k \<in> \<int>" and "\<bar>x\<bar> * 2 ^ k < 2 ^ Suc q"
  shows "roundTo q x = x"
proof (cases "x < 0")
  case True
  have "- x * 2 ^ k = - (x * 2 ^ k)" by simp
  then have "- x * 2 ^ k \<in> \<int>" using assms(1) by (simp only: Ints_minus)
  moreover have "- x * 2 ^ k < 2 ^ Suc q" using assms(2) True by simp
  ultimately have "scaleUp q (- x) = - x" using True by (intro scaleUp_exact[of _ k]) auto
  then show ?thesis using True by (simp add: roundTo_def)
next
  case False
  then have "scaleUp q x = x" using assms by (intro scaleUp_exact[of _ k]) auto
  then show ?thesis using False by (simp add: roundTo_def)
qed

lemma toDouble_exact:
  "x * 2 ^ k \<in> \<int> \<Longrightarrow> \<bar>x\<bar> * 2 ^ k < 2 ^ 53 \<Longrightarrow> toDouble x = x"
  unfolding toDouble_def by (rule roundTo_exact[of x k]) simp_all

lemma toFloat32_exact:
  "x * 2 ^ k \<in> \<int> \<Longrightarrow> \<bar>x\<bar> * 2 ^ k < 2 ^ 24 \<Longrightarrow> toFloat32 x = x"
  unfolding toFloat32_def by (rule roundTo_exact[of x k]) simp_all

lemma toDouble_numeral: "(numeral w :: real) < 2 ^ 53 \<Longrightarrow> toDouble (numeral w) = numeral w"
  using toDouble_exact[of "numeral w" 0] by simp

lemma toFloat32_numeral: "(numeral w :: real) < 2 ^ 24 \<Longrightarrow> toFloat32 (numeral w) = numeral w"
  using toFloat32_exact[of "numeral w" 0] by simp


lemma toFloat32_one: "toFloat32 1 = 1"
  using toFloat32_exact[of 1 0] by simp

section \<open>Properties of the detection postprocessor\<close>

subsection \<open>The scan over the proposals\<close>

lemma bestClass_fst: "fst (bestClass xs i (m, c)) = fold max xs m"
  by (induction xs arbitrary: i m c) (auto simp: max_def)

lemma bestClass_Max: "fst (bestClass xs i (m, c)) = Max (insert m (set xs))"
proof -
  have "Max (insert m (set xs)) = Max (set (m # xs))" by simp
  also have "\<dots> = fold max xs m" by (rule Max.set_eq_fold)
  finally show ?thesis by (simp add: bestClass_fst)
qed

lemma scanProposals_eq:
  "scanProposals ps wr hr (B, S, C) =
     (B @ map (\<lambda>p. toBox p wr hr) (filter accepted ps),
      S @ map maxScoreOf (filter accepted ps),
      C @ map classIdOf (filter accepted ps))"
  by (induction ps arbitrary: B S C)
     (auto simp: accepted_def maxScoreOf_def classIdOf_def split: prod.splits)

text \<open>
  The selection never exceeds \<open>maxOutputSize\<close> and only returns indices of the score
  tensor, so the gathers that follow stay in range.
\<close>

lemma selectLoop_length:
  "length (selectLoop boxes m thr cs sel) \<le> max m (length sel)"
proof (induction cs arbitrary: sel)
  case Nil
  then show ?case by simp
next
  case (Cons c cs)
  have keep: "length (selectLoop boxes m thr cs sel) \<le> max m (length sel)"
    by (rule Cons.IH)
  have push: "length sel < m \<Longrightarrow> length (selectLoop boxes m thr cs (sel @ [c])) \<le> m"
    using Cons.IH[of "sel @ [c]"] by simp
  show ?case using keep push by auto
qed

lemma selectLoop_subset:
  "set (selectLoop boxes m thr cs sel) \<subseteq> set cs \<union> set sel"
proof (induction cs arbitrary: sel)
  case Nil
  then show ?case by simp
next
  case (Cons c cs)
  have keep: "set (selectLoop boxes m thr cs sel) \<subseteq> set (c # cs) \<union> set sel"
    using Cons.IH[of sel] by auto
  have push: "set (selectLoop boxes m thr cs (sel @ [c])) \<subseteq> set (c # cs) \<union> set sel"
    using Cons.IH[of "sel @ [c]"] by auto
  show ?case using keep push by auto
qed

lemma candidateOrder_set: "set (candidateOrder scores) = {0..<length scores}"
  by (simp add: candidateOrder_def)

lemma nonMaxSuppression_length: "length (nonMaxSuppression boxes scores m thr) \<le> m"
  using selectLoop_length[of boxes m thr "candidateOrder scores" "[]"]
  by (simp add: nonMaxSuppression_def)

lemma nonMaxSuppression_range:
  "i \<in> set (nonMaxSuppression boxes scores m thr) \<Longrightarrow> i < length scores"
  using selectLoop_subset[of boxes m thr "candidateOrder scores" "[]"]
  by (auto simp: nonMaxSuppression_def candidateOrder_set)

text \<open>
  \<open>processOutput\<close> in terms of the accepted proposals, and the origin of every returned
  row: box, score and class at one position come from one accepted proposal.
\<close>

lemma processOutput_unfold:
  "processOutput ps wr hr =
     (let A = filter accepted ps;
          boxes = tensor2d (map (\<lambda>p. toBox p wr hr) A);
          scores = map maxScoreOf A;
          classes = map classIdOf A
      in if A = [] then ([], [], [])
         else (gather boxes (nonMaxSuppression boxes scores 20 0.45),
               gather scores (nonMaxSuppression boxes scores 20 0.45),
               gather classes (nonMaxSuppression boxes scores 20 0.45)))"
  by (simp add: processOutput_def processOutputWith_def tensor2d_def
      scanProposals_eq[of ps wr hr "[]" "[]" "[]", simplified] Let_def)

lemma processOutput_rows:
  assumes "processOutput ps wr hr = (B, S, C)"
  shows "length B = length S" and "length C = length S" and "length S \<le> 20"
    and "\<And>i. i < length S \<Longrightarrow>
           \<exists>p \<in> set ps. accepted p \<and> B ! i = float32Row (toBox p wr hr) \<and> S ! i = maxScoreOf p
             \<and> C ! i = classIdOf p"
proof -
  define A where "A = filter accepted ps"
  define boxes where "boxes = tensor2d (map (\<lambda>p. toBox p wr hr) A)"
  define scores where "scores = map maxScoreOf A"
  define classes where "classes = map classIdOf A"
  define idx where "idx = (if A = [] then [] else nonMaxSuppression boxes scores 20 0.45)"
  have out: "B = gather boxes idx" "S = gather scores idx" "C = gather classes idx"
    using assms unfolding processOutput_unfold A_def boxes_def scores_def classes_def idx_def
    by (auto simp: Let_def gather_def split: if_splits)
  show "length B = length S" "length C = length S" by (simp_all add: out gather_def)
  show "length S \<le> 20"
    using nonMaxSuppression_length[of boxes scores 20 "0.45"] by (simp add: out gather_def idx_def)
  fix i assume i: "i < length S"
  then have "idx ! i \<in> set idx" by (simp add: out gather_def)
  then have r: "idx ! i < length A"
    using nonMaxSuppression_range[of "idx ! i" boxes scores 20 "0.45"]
    by (auto simp: idx_def scores_def split: if_splits)
  then have "A ! (idx ! i) \<in> set A" by simp
  then have mem: "A ! (idx ! i) \<in> set ps" "accepted (A ! (idx ! i))" by (auto simp: A_def)
  have "B ! i = float32Row (toBox (A ! (idx ! i)) wr hr)" "S ! i = maxScoreOf (A ! (idx ! i))"
       "C ! i = classIdOf (A ! (idx ! i))"
    using i r by (simp_all add: out gather_def boxes_def tensor2d_def scores_def classes_def)
  with mem show "\<exists>p \<in> set ps. accepted p \<and> B ! i = float32Row (toBox p wr hr) \<and> S ! i = maxScoreOf p
             \<and> C ! i = classIdOf p"
    by blast
qed

lemma accepted_iff: "accepted p \<longleftrightarrow> (\<exists>s \<in> set (classScores p). s > 1/2)"
proof -
  have "accepted p \<longleftrightarrow> 1/2 < Max (insert (-1) (set (classScores p)))"
    by (simp add: accepted_def maxScoreOf_def bestClass_Max confidenceThreshold_def)
  also have "\<dots> \<longleftrightarrow> (\<exists>s \<in> insert (-1) (set (classScores p)). 1/2 < s)"
    by (rule Max_gr_iff) simp_all
  also have "\<dots> \<longleftrightarrow> (\<exists>s \<in> set (classScores p). s > 1/2)"
    by auto
  finally show ?thesis .
qed

lemma accepted_maxScore:
  assumes "accepted p"
  shows "classScores p \<noteq> []" and "maxScoreOf p = Max (set (classScores p))"
proof -
  show ne: "classScores p \<noteq> []" using assms by (auto simp: accepted_iff)
  have "maxScoreOf p = Max (insert (-1) (set (classScores p)))"
    by (simp add: maxScoreOf_def bestClass_Max)
  also have "\<dots> = max (-1) (Max (set (classScores p)))" using ne by simp
  finally have m: "maxScoreOf p = max (-1) (Max (set (classScores p)))" .
  from assms obtain s where "s \<in> set (classScores p)" "s > 1/2" by (auto simp: accepted_iff)
  then have "Max (set (classScores p)) > 1/2" using ne by (meson List.finite_set Max_ge less_le_trans)
  then show "maxScoreOf p = Max (set (classScores p))" using m by simp
qed

lemma filter_accepted_cong:
  assumes "\<And>p. accepted p \<Longrightarrow> Q p"
  shows "filter accepted (filter Q ps) = filter accepted ps"
  using assms by (induction ps) auto

lemma processOutput_filter:
  assumes "\<And>p. accepted p \<Longrightarrow> Q p"
  shows "processOutput (filter Q ps) wr hr = processOutput ps wr hr"
proof -
  have "filter accepted (filter Q ps) = filter accepted ps"
    by (rule filter_accepted_cong[OF assms])
  then show ?thesis unfolding processOutput_unfold by (simp only:)
qed

lemma nonMaxSuppression_single: "nonMaxSuppression [b] [s] 20 thr = [0]"
  by (simp add: nonMaxSuppression_def candidateOrder_def)

text \<open>Evaluating \<open>processOutput\<close> stage by stage.\<close>

lemma processOutput_stages:
  assumes "scanProposals ps wr hr ([], [], []) = (B, S, C)" and "B \<noteq> []"
    and "tensor2d B = T" and "nonMaxSuppression T S 20 0.45 = I"
  shows "processOutput ps wr hr = (gather T I, gather S I, gather C I)"
  using assms by (simp add: processOutput_def processOutputWith_def Let_def)

lemma scan_empty:
  assumes "\<forall>p \<in> set proposals. \<forall>s \<in> set (classScores p). s \<le> 0.5"
  shows "scanProposals proposals wr hr ([], [], []) = ([], [], [])"
proof -
  have "filter accepted proposals = []"
    using assms by (fastforce simp: filter_empty_conv accepted_iff)
  then show ?thesis by (simp add: scanProposals_eq[of proposals wr hr "[]" "[]" "[]", simplified])
qed

subsection \<open>What the suppression call guarantees on the rows it is given\<close>

text \<open>
  The overlap is symmetric, and any two selected rows overlap by less than the threshold
  in the corner reading of the library.
\<close>

lemma iou_sym: "intersectionOverUnion a b = intersectionOverUnion b a"
  by (cases a, cases b) (simp add: intersectionOverUnion_def Let_def max.commute min.commute add.commute disj_commute)

lemma selectLoop_pairwise:
  assumes "sorted_wrt (\<lambda>i j. intersectionOverUnion (boxes ! j) (boxes ! i) < thr) sel"
  shows "sorted_wrt (\<lambda>i j. intersectionOverUnion (boxes ! j) (boxes ! i) < thr)
           (selectLoop boxes m thr cs sel)"
  using assms
proof (induction cs arbitrary: sel)
  case Nil
  then show ?case by simp
next
  case (Cons c cs)
  show ?case
  proof (cases "length sel < m \<and> \<not> list_ex (\<lambda>j. intersectionOverUnion (boxes ! c) (boxes ! j) \<ge> thr) sel")
    case True
    then have "sorted_wrt (\<lambda>i j. intersectionOverUnion (boxes ! j) (boxes ! i) < thr) (sel @ [c])"
      using Cons.prems by (auto simp: sorted_wrt_append list_ex_iff not_le)
    from Cons.IH[OF this] True show ?thesis by simp
  next
    case False
    then show ?thesis using Cons.IH[OF Cons.prems] Cons.prems by auto
  qed
qed

lemma nonMaxSuppression_pairwise:
  "sorted_wrt (\<lambda>i j. intersectionOverUnion (boxes ! j) (boxes ! i) < thr)
     (nonMaxSuppression boxes scores m thr)"
  unfolding nonMaxSuppression_def by (rule selectLoop_pairwise) simp

subsection \<open>Claims about processOutput\<close>

text \<open>
  Claim C1: after non-max suppression no two boxes in the output of \<open>processOutput\<close>
  overlap by more than the threshold 0.45. The source pushes rows \<open>(x, y, width, height)\<close>
  and hands them unchanged to the suppression call, which reads a row as two corners
  \<open>[y1, x1, y2, x2]\<close>. For the two proposals below the call measures an overlap of 1/4 and
  keeps both boxes, while the boxes as drawn, \<open>(x, y, width, height)\<close>, overlap by
  441/527, which is above 0.45.
\<close>

theorem processOutput_keeps_overlapping_boxes:
  "processOutput
     [\<lparr>x_center = 155, y_center = 155, width = 110, height = 110, classScores = [0.1, 0.9]\<rparr>,
      \<lparr>x_center = 160, y_center = 160, width = 110, height = 110, classScores = [0.2, 0.8]\<rparr>] 1 1
     = ([(100, 100, 110, 110), (105, 105, 110, 110)], [0.9, 0.8], [1, 1])
   \<and> boxIoU (100, 100, 110, 110) (105, 105, 110, 110) = 441 / 527
   \<and> boxIoU (100, 100, 110, 110) (105, 105, 110, 110) > 0.45
   \<and> intersectionOverUnion (105, 105, 110, 110) (100, 100, 110, 110) = 1 / 4"
proof -
  have scan: "scanProposals
     [\<lparr>x_center = 155, y_center = 155, width = 110, height = 110, classScores = [0.1, 0.9]\<rparr>,
      \<lparr>x_center = 160, y_center = 160, width = 110, height = 110, classScores = [0.2, 0.8]\<rparr>] 1 1
     ([], [], [])
     = ([(100, 100, 110, 110), (105, 105, 110, 110)], [0.9, 0.8], [1, 1])"
    by (simp add: toBox_def toDouble_numeral confidenceThreshold_def)
  have stored: "tensor2d [(100, 100, 110, 110), (105, 105, 110, 110)]
     = [(100, 100, 110, 110), (105, 105, 110, 110)]"
    by (simp add: tensor2d_def float32Row_def toFloat32_numeral)
  have kept: "nonMaxSuppression [(100, 100, 110, 110), (105, 105, 110, 110)] [0.9, 0.8] 20 0.45
     = [0, 1]"
    by code_simp
  have out: "processOutput
     [\<lparr>x_center = 155, y_center = 155, width = 110, height = 110, classScores = [0.1, 0.9]\<rparr>,
      \<lparr>x_center = 160, y_center = 160, width = 110, height = 110, classScores = [0.2, 0.8]\<rparr>] 1 1
     = ([(100, 100, 110, 110), (105, 105, 110, 110)], [0.9, 0.8], [1, 1])"
    using processOutput_stages[OF scan _ stored kept] by (simp add: gather_def)
  have overlap: "boxIoU (100, 100, 110, 110) (105, 105, 110, 110) = 441 / 527
     \<and> boxIoU (100, 100, 110, 110) (105, 105, 110, 110) > 0.45
     \<and> intersectionOverUnion (105, 105, 110, 110) (100, 100, 110, 110) = 1 / 4"
    by code_simp
  from out overlap show ?thesis by (rule conjI)
qed

text \<open>
  Claim C2: every detection kept by \<open>processOutput\<close> has a confidence of at least 0.5, and
  that confidence is the maximum class score of one of the proposals; a proposal whose
  maximum class score is below 0.5 is rejected, that is, the output is the same with
  such proposals removed from the input.
\<close>

theorem processOutput_confidence:
  assumes "processOutput proposals widthRatio heightRatio = (boxes, scores, classes)"
  shows "(\<forall>i < length scores. scores ! i \<ge> 0.5 \<and>
            (\<exists>p \<in> set proposals. classScores p \<noteq> [] \<and> scores ! i = Max (set (classScores p))))
       \<and> processOutput
            (filter (\<lambda>p. \<not> (classScores p \<noteq> [] \<and> Max (set (classScores p)) < 0.5)) proposals)
            widthRatio heightRatio = (boxes, scores, classes)"
proof (intro conjI allI impI)
  fix i assume "i < length scores"
  from processOutput_rows(4)[OF assms this]
  obtain p where p: "p \<in> set proposals" "accepted p" "scores ! i = maxScoreOf p" by blast
  have m: "maxScoreOf p = Max (set (classScores p))" and ne: "classScores p \<noteq> []"
    using accepted_maxScore[OF p(2)] by simp_all
  have "maxScoreOf p > 0.5" using p(2) by (simp add: accepted_def confidenceThreshold_def)
  then show "scores ! i \<ge> 0.5" using p(3) by simp
  show "\<exists>p \<in> set proposals. classScores p \<noteq> [] \<and> scores ! i = Max (set (classScores p))"
    using p m ne by auto
next
  have "\<And>p. accepted p \<Longrightarrow> \<not> (classScores p \<noteq> [] \<and> Max (set (classScores p)) < 0.5)"
  proof -
    fix p assume a: "accepted p"
    have "maxScoreOf p > 0.5" using a by (simp add: accepted_def confidenceThreshold_def)
    then show "\<not> (classScores p \<noteq> [] \<and> Max (set (classScores p)) < 0.5)"
      using accepted_maxScore(2)[OF a] by simp
  qed
  from processOutput_filter[of "\<lambda>p. \<not> (classScores p \<noteq> [] \<and> Max (set (classScores p)) < 0.5)", OF this]
  show "processOutput
          (filter (\<lambda>p. \<not> (classScores p \<noteq> [] \<and> Max (set (classScores p)) < 0.5)) proposals)
          widthRatio heightRatio = (boxes, scores, classes)"
    using assms by simp
qed

theorem processOutput_confidence_witness:
  "processOutput
     [\<lparr>x_center = 100, y_center = 100, width = 50, height = 50, classScores = [0.2, 0.9]\<rparr>,
      \<lparr>x_center = 300, y_center = 300, width = 40, height = 40, classScores = [0.3, 0.4]\<rparr>] 1 1
     = ([(75, 75, 50, 50)], [0.9], [1])
   \<and> ([0.9 :: real] ! 0 \<ge> 0.5)
   \<and> processOutput
     (filter (\<lambda>p. \<not> (classScores p \<noteq> [] \<and> Max (set (classScores p)) < 0.5))
       [\<lparr>x_center = 100, y_center = 100, width = 50, height = 50, classScores = [0.2, 0.9]\<rparr>,
        \<lparr>x_center = 300, y_center = 300, width = 40, height = 40, classScores = [0.3, 0.4]\<rparr>]) 1 1
     = ([(75, 75, 50, 50)], [0.9], [1])"
proof -
  have h: "processOutput
     [\<lparr>x_center = 100, y_center = 100, width = 50, height = 50, classScores = [0.2, 0.9]\<rparr>,
      \<lparr>x_center = 300, y_center = 300, width = 40, height = 40, classScores = [0.3, 0.4]\<rparr>] 1 1
     = ([(75, 75, 50, 50)], [0.9], [1])"
  proof -
    have scan: "scanProposals
       [\<lparr>x_center = 100, y_center = 100, width = 50, height = 50, classScores = [0.2, 0.9]\<rparr>,
        \<lparr>x_center = 300, y_center = 300, width = 40, height = 40, classScores = [0.3, 0.4]\<rparr>] 1 1
       ([], [], [])
       = ([(75, 75, 50, 50)], [0.9], [1])"
      by (simp add: toBox_def toDouble_numeral confidenceThreshold_def)
    have stored: "tensor2d [(75, 75, 50, 50)] = [(75, 75, 50, 50)]"
      by (simp add: tensor2d_def float32Row_def toFloat32_numeral)
    show ?thesis
      using processOutput_stages[OF scan _ stored nonMaxSuppression_single]
      by (simp add: gather_def)
  qed
  show ?thesis using h processOutput_confidence[OF h] by simp
qed

text \<open>
  Claim C3: \<open>processOutput\<close> never returns more than 20 detections, in any of its three
  arrays.
\<close>

theorem processOutput_cap:
  "length (fst (processOutput proposals widthRatio heightRatio)) \<le> 20
   \<and> length (fst (snd (processOutput proposals widthRatio heightRatio))) \<le> 20
   \<and> length (snd (snd (processOutput proposals widthRatio heightRatio))) \<le> 20"
proof -
  obtain B S C where out: "processOutput proposals widthRatio heightRatio = (B, S, C)"
    by (metis prod_cases3)
  show ?thesis using processOutput_rows(1,2,3)[OF out] by (simp add: out)
qed

theorem processOutput_cap_witness:
  "length (fst (processOutput
      [\<lparr>x_center = 100, y_center = 100, width = 50, height = 50, classScores = [0.1, 0.9]\<rparr>] 1 1)) \<le> 20
   \<and> length (fst (snd (processOutput
      [\<lparr>x_center = 100, y_center = 100, width = 50, height = 50, classScores = [0.1, 0.9]\<rparr>] 1 1))) \<le> 20
   \<and> length (snd (snd (processOutput
      [\<lparr>x_center = 100, y_center = 100, width = 50, height = 50, classScores = [0.1, 0.9]\<rparr>] 1 1))) \<le> 20"
  using processOutput_cap[of
      "[\<lparr>x_center = 100, y_center = 100, width = 50, height = 50, classScores = [0.1, 0.9]\<rparr>]" 1 1]
  by simp

text \<open>
  Claim C4, as stated: the box returned for an accepted proposal is the row
  \<open>((cx - w/2) * rw, (cy - h/2) * rh, w * rw, h * rh)\<close>. The rows come back from a
  \<open>float32\<close> tensor. For the proposal with center (100, 100), width 50 + 2^-18 (a single
  precision number), height 50 and ratios (1, 1) the formula gives the left edge
  75 - 2^-19, which no single can hold; the box returned has the left edge 75.
\<close>

theorem processOutput_returns_rounded_box:
  "processOutput
     [\<lparr>x_center = 100, y_center = 100, width = 13107201 / 262144, height = 50,
       classScores = [0.75]\<rparr>] 1 1
     = ([(75, 75, 13107201 / 262144, 50)], [0.75], [0])
   \<and> ((100 - (13107201 / 262144) / 2) * 1 :: real) = 39321599 / 524288
   \<and> (75 :: real) \<noteq> 39321599 / 524288"
proof -
  have d1: "toDouble (13107201 / 524288) = 13107201 / 524288"
    using toDouble_exact[of "13107201 / 524288" 19] by simp
  have d2: "toDouble (39321599 / 524288) = 39321599 / 524288"
    using toDouble_exact[of "39321599 / 524288" 19] by simp
  have d3: "toDouble (13107201 / 262144) = 13107201 / 262144"
    using toDouble_exact[of "13107201 / 262144" 18] by simp
  have f1: "toFloat32 (39321599 / 524288) = 75"
    by code_simp
  have f2: "toFloat32 (13107201 / 262144) = 13107201 / 262144"
    using toFloat32_exact[of "13107201 / 262144" 18] by simp
  have scan: "scanProposals
     [\<lparr>x_center = 100, y_center = 100, width = 13107201 / 262144, height = 50,
       classScores = [0.75]\<rparr>] 1 1 ([], [], [])
     = ([(39321599 / 524288, 75, 13107201 / 262144, 50)], [0.75], [0])"
    by (simp add: toBox_def d1 d2 d3 toDouble_numeral confidenceThreshold_def)
  have stored: "tensor2d [(39321599 / 524288, 75, 13107201 / 262144, 50)]
     = [(75, 75, 13107201 / 262144, 50)]"
    by (simp add: tensor2d_def float32Row_def f1 f2 toFloat32_numeral)
  have out: "processOutput
     [\<lparr>x_center = 100, y_center = 100, width = 13107201 / 262144, height = 50,
       classScores = [0.75]\<rparr>] 1 1
     = ([(75, 75, 13107201 / 262144, 50)], [0.75], [0])"
    using processOutput_stages[OF scan _ stored nonMaxSuppression_single]
    by (simp add: gather_def)
  then show ?thesis by simp
qed

text \<open>
  Claim C4, amended: the row pushed for an accepted proposal with center \<open>(cx, cy)\<close>,
  width \<open>w\<close>, height \<open>h\<close> and scale ratios \<open>(rw, rh)\<close> is \<open>((cx - w/2) * rw, (cy - h/2) * rh,
  w * rw, h * rh)\<close> with every operation rounded to double precision: the candidate rows
  are exactly these, for the proposals with a class score above 0.5, in order. Every
  box returned by \<open>processOutput\<close> is such a row rounded to single precision. For an
  accepted proposal with center (100, 100), width 50, height 50 under the ratios (1, 1)
  nothing is rounded away and the box is (75, 75, 50, 50).
\<close>

theorem processOutput_box_conversion:
  "fst (scanProposals proposals widthRatio heightRatio ([], [], [])) =
     map (\<lambda>p. (toDouble (toDouble (x_center p - toDouble (width p / 2)) * widthRatio),
               toDouble (toDouble (y_center p - toDouble (height p / 2)) * heightRatio),
               toDouble (width p * widthRatio),
               toDouble (height p * heightRatio)))
       (filter (\<lambda>p. \<exists>s \<in> set (classScores p). s > 0.5) proposals)
   \<and> (\<forall>b \<in> set (fst (processOutput proposals widthRatio heightRatio)).
        \<exists>p \<in> set proposals. (\<exists>s \<in> set (classScores p). s > 0.5) \<and>
          b = (toFloat32 (toDouble (toDouble (x_center p - toDouble (width p / 2)) * widthRatio)),
               toFloat32 (toDouble (toDouble (y_center p - toDouble (height p / 2)) * heightRatio)),
               toFloat32 (toDouble (width p * widthRatio)),
               toFloat32 (toDouble (height p * heightRatio))))
   \<and> ((\<exists>s \<in> set scores. s > 0.5) \<longrightarrow>
        fst (processOutput
               [\<lparr>x_center = 100, y_center = 100, width = 50, height = 50, classScores = scores\<rparr>] 1 1)
          = [(75, 75, 50, 50)])"
proof (intro conjI ballI impI)
  have "filter accepted proposals = filter (\<lambda>p. \<exists>s \<in> set (classScores p). s > 0.5) proposals"
    by (rule filter_cong) (simp_all add: accepted_iff)
  then show "fst (scanProposals proposals widthRatio heightRatio ([], [], [])) =
     map (\<lambda>p. (toDouble (toDouble (x_center p - toDouble (width p / 2)) * widthRatio),
               toDouble (toDouble (y_center p - toDouble (height p / 2)) * heightRatio),
               toDouble (width p * widthRatio),
               toDouble (height p * heightRatio)))
       (filter (\<lambda>p. \<exists>s \<in> set (classScores p). s > 0.5) proposals)"
    by (simp add: scanProposals_eq[of proposals widthRatio heightRatio "[]" "[]" "[]", simplified]
        toBox_def)
next
  fix b assume b: "b \<in> set (fst (processOutput proposals widthRatio heightRatio))"
  obtain B S C where out: "processOutput proposals widthRatio heightRatio = (B, S, C)"
    by (metis prod_cases3)
  from b out obtain i where i: "i < length B" "b = B ! i" by (auto simp: in_set_conv_nth)
  with processOutput_rows(1)[OF out] have "i < length S" by simp
  from processOutput_rows(4)[OF out this]
  obtain p where "p \<in> set proposals" "accepted p"
    "B ! i = float32Row (toBox p widthRatio heightRatio)" by blast
  then show "\<exists>p \<in> set proposals. (\<exists>s \<in> set (classScores p). s > 0.5) \<and>
          b = (toFloat32 (toDouble (toDouble (x_center p - toDouble (width p / 2)) * widthRatio)),
               toFloat32 (toDouble (toDouble (y_center p - toDouble (height p / 2)) * heightRatio)),
               toFloat32 (toDouble (width p * widthRatio)),
               toFloat32 (toDouble (height p * heightRatio)))"
    using i(2) by (auto simp: accepted_iff toBox_def float32Row_def)
next
  assume "\<exists>s \<in> set scores. s > 0.5"
  then have "accepted \<lparr>x_center = 100, y_center = 100, width = 50, height = 50, classScores = scores\<rparr>"
    by (simp add: accepted_iff)
  then show "fst (processOutput
               [\<lparr>x_center = 100, y_center = 100, width = 50, height = 50, classScores = scores\<rparr>] 1 1)
          = [(75, 75, 50, 50)]"
    by (simp add: processOutput_unfold nonMaxSuppression_single gather_def toBox_def
        tensor2d_def float32Row_def toDouble_numeral toFloat32_numeral)
qed

theorem processOutput_box_conversion_witness:
  "(\<exists>s \<in> set [0.1, 0.9 :: real]. s > 0.5)
   \<and> fst (processOutput
         [\<lparr>x_center = 100, y_center = 100, width = 50, height = 50, classScores = [0.1, 0.9]\<rparr>] 1 1)
       = [(75, 75, 50, 50)]
   \<and> (\<exists>p \<in> set [\<lparr>x_center = 100, y_center = 100, width = 50, height = 50, classScores = [0.1, 0.9]\<rparr>].
        (\<exists>s \<in> set (classScores p). s > 0.5) \<and>
        (75, 75, 50, 50) =
          (toFloat32 (toDouble (toDouble (x_center p - toDouble (width p / 2)) * 1)),
           toFloat32 (toDouble (toDouble (y_center p - toDouble (height p / 2)) * 1)),
           toFloat32 (toDouble (width p * 1)),
           toFloat32 (toDouble (height p * 1))))"
proof -
  note t = processOutput_box_conversion[of
      "[\<lparr>x_center = 100, y_center = 100, width = 50, height = 50, classScores = [0.1, 0.9]\<rparr>]"
      1 1 "[0.1, 0.9]"]
  have h: "\<exists>s \<in> set [0.1, 0.9 :: real]. s > 0.5"
    by (rule bexI[of _ "0.9"]) simp_all
  have ex: "fst (processOutput
         [\<lparr>x_center = 100, y_center = 100, width = 50, height = 50, classScores = [0.1, 0.9]\<rparr>] 1 1)
       = [(75, 75, 50, 50)]"
    using t h by blast
  have "(75, 75, 50, 50) \<in> set (fst (processOutput
         [\<lparr>x_center = 100, y_center = 100, width = 50, height = 50, classScores = [0.1, 0.9]\<rparr>] 1 1))"
    by (simp add: ex)
  with t have "\<exists>p \<in> set [\<lparr>x_center = 100, y_center = 100, width = 50, height = 50, classScores = [0.1, 0.9]\<rparr>].
        (\<exists>s \<in> set (classScores p). s > 0.5) \<and>
        (75, 75, 50, 50) =
          (toFloat32 (toDouble (toDouble (x_center p - toDouble (width p / 2)) * 1)),
           toFloat32 (toDouble (toDouble (y_center p - toDouble (height p / 2)) * 1)),
           toFloat32 (toDouble (width p * 1)),
           toFloat32 (toDouble (height p * 1)))"
    by blast
  with h ex show ?thesis by blast
qed

text \<open>
  Claim C10: when no proposal has a class score above 0.5, \<open>processOutput\<close> returns three
  empty arrays whatever the suppression call would do (it is not reached); and in every
  case the three arrays it returns have the same length.
\<close>

theorem processOutput_empty_and_aligned:
  "((\<forall>p \<in> set proposals. \<forall>s \<in> set (classScores p). s \<le> 0.5) \<longrightarrow>
       processOutputWith nms proposals widthRatio heightRatio = ([], [], [])
       \<and> processOutput proposals widthRatio heightRatio = ([], [], []))
   \<and> (case processOutputWith nms proposals widthRatio heightRatio of
         (boxes, scores, classes) \<Rightarrow> length boxes = length scores \<and> length classes = length scores)
   \<and> (case processOutput proposals widthRatio heightRatio of
         (boxes, scores, classes) \<Rightarrow> length boxes = length scores \<and> length classes = length scores)"
proof -
  have aligned: "\<And>f. case processOutputWith f proposals widthRatio heightRatio of
         (boxes, scores, classes) \<Rightarrow> length boxes = length scores \<and> length classes = length scores"
    by (simp add: processOutputWith_def gather_def Let_def split: prod.splits)
  have empty: "\<And>f. (\<forall>p \<in> set proposals. \<forall>s \<in> set (classScores p). s \<le> 0.5) \<Longrightarrow>
       processOutputWith f proposals widthRatio heightRatio = ([], [], [])"
    by (simp add: processOutputWith_def scan_empty)
  show ?thesis
    using aligned[of nms] aligned[of nonMaxSuppression] empty[of nms] empty[of nonMaxSuppression]
    unfolding processOutput_def by blast
qed

theorem processOutput_empty_and_aligned_witness:
  "(0.3 :: real) \<le> 0.5 \<and> (0.5 :: real) \<le> 0.5
   \<and> processOutputWith (\<lambda>boxes scores n t. [7])
        [\<lparr>x_center = 300, y_center = 300, width = 40, height = 40, classScores = [0.3, 0.5]\<rparr>] 1 1
      = ([], [], [])
   \<and> processOutput
        [\<lparr>x_center = 300, y_center = 300, width = 40, height = 40, classScores = [0.3, 0.5]\<rparr>] 1 1
      = ([], [], [])"
  using processOutput_empty_and_aligned[of
      "[\<lparr>x_center = 300, y_center = 300, width = 40, height = 40, classScores = [0.3, 0.5]\<rparr>]"
      "\<lambda>boxes scores n t. [7]" 1 1]
  by simp

section \<open>Properties of the classification postprocessor\<close>

lemma pairWithLabels_set:
  "r \<in> set (pairWithLabels table ps) \<Longrightarrow>
     \<exists>i < length ps. r = \<lparr>className = labelOf table i, probability = ps ! i\<rparr>"
  by (auto simp: pairWithLabels_def)

lemma topK_example:
  "topK (\<lambda>i. if i = 0 then Some ''tench'' else if i = 1 then Some ''goldfish''
               else if i = 2 then Some [] else None)
        [0.1, 0.5, 0.05, 0.3, 0.05]
   = [\<lparr>className = ClassName ''goldfish'', probability = 0.5\<rparr>,
      \<lparr>className = UnknownId 3, probability = 0.3\<rparr>,
      \<lparr>className = ClassName ''tench'', probability = 0.1\<rparr>]"
  by code_simp

text \<open>
  Claim C5: for every probability vector the classification postprocessor returns at
  most three entries (three, or all of them when there are fewer), in descending order
  of probability, and each entry pairs a probability of the vector with the class label
  of its index.
\<close>

theorem topK_sorted_top3:
  "length (topK IMAGENET_CLASSES probabilities) \<le> 3
   \<and> length (topK IMAGENET_CLASSES probabilities) = min 3 (length probabilities)
   \<and> sorted_wrt (\<lambda>a b. probability a \<ge> probability b) (topK IMAGENET_CLASSES probabilities)
   \<and> (\<forall>r \<in> set (topK IMAGENET_CLASSES probabilities).
        \<exists>i < length probabilities.
          r = \<lparr>className = labelOf IMAGENET_CLASSES i, probability = probabilities ! i\<rparr>)"
proof (intro conjI ballI)
  let ?L = "pairWithLabels IMAGENET_CLASSES probabilities"
  let ?S = "sort_key (\<lambda>a. - probability a) ?L"
  show "length (topK IMAGENET_CLASSES probabilities) \<le> 3" by (simp add: topK_def)
  show "length (topK IMAGENET_CLASSES probabilities) = min 3 (length probabilities)"
    by (simp add: topK_def pairWithLabels_def min.commute)
  have "sorted (map (\<lambda>a. - probability a) ?S)" by (rule sorted_sort_key)
  then have "sorted_wrt (\<lambda>a b. probability a \<ge> probability b) ?S"
    by (simp add: sorted_map)
  then show "sorted_wrt (\<lambda>a b. probability a \<ge> probability b) (topK IMAGENET_CLASSES probabilities)"
    unfolding topK_def by (rule sorted_wrt_take)
next
  fix r assume "r \<in> set (topK IMAGENET_CLASSES probabilities)"
  then have "r \<in> set (sort_key (\<lambda>a. - probability a) (pairWithLabels IMAGENET_CLASSES probabilities))"
    unfolding topK_def by (rule in_set_takeD)
  then have "r \<in> set (pairWithLabels IMAGENET_CLASSES probabilities)" by simp
  then show "\<exists>i < length probabilities.
          r = \<lparr>className = labelOf IMAGENET_CLASSES i, probability = probabilities ! i\<rparr>"
    by (rule pairWithLabels_set)
qed

theorem topK_sorted_top3_witness:
  "topK (\<lambda>i. if i = 0 then Some ''tench'' else if i = 1 then Some ''goldfish''
               else if i = 2 then Some [] else None)
        [0.1, 0.5, 0.05, 0.3, 0.05]
   = [\<lparr>className = ClassName ''goldfish'', probability = 0.5\<rparr>,
      \<lparr>className = UnknownId 3, probability = 0.3\<rparr>,
      \<lparr>className = ClassName ''tench'', probability = 0.1\<rparr>]
   \<and> sorted_wrt (\<lambda>a b. probability a \<ge> probability b)
       [\<lparr>className = ClassName ''goldfish'', probability = 0.5\<rparr>,
        \<lparr>className = UnknownId 3, probability = 0.3\<rparr>,
        \<lparr>className = ClassName ''tench'', probability = 0.1\<rparr>]
   \<and> length (topK (\<lambda>i. if i = 0 then Some ''tench'' else if i = 1 then Some ''goldfish''
               else if i = 2 then Some [] else None)
        [0.1, 0.5, 0.05, 0.3, 0.05]) \<le> 3"
proof -
  note t = topK_sorted_top3[of
      "\<lambda>i. if i = 0 then Some ''tench'' else if i = 1 then Some ''goldfish''
               else if i = 2 then Some [] else None"
      "[0.1, 0.5, 0.05, 0.3, 0.05]"]
  show ?thesis using t topK_example by metis
qed

section \<open>Properties of ticks and loops\<close>

text \<open>
  Claim C9: a tick that fires while the video frame is not yet decodable, or while the
  model is not loaded, is a no-op: it completes without error and leaves the page as it
  was, so no preprocessing, inference or rendering step is performed and the canvas
  overlay is unchanged. This holds for the exported \<open>runDetectionLoop\<close>, for the callback
  of the RealTimeDetector component and for \<open>detectObjects\<close>.
\<close>

theorem unready_tick_is_noop:
  "(readyState env < 3 \<longrightarrow> runDetectionLoop env pg = Inr pg)
   \<and> ((\<not> modelLoaded env \<or> readyState env < 3) \<longrightarrow> runDetectionLoopCallback env pg = Inr pg)
   \<and> ((\<not> ssdModelLoaded senv \<or> ssdReadyState senv \<noteq> 4) \<longrightarrow> detectObjects senv pg = Inr pg)"
  by (simp add: runDetectionLoop_def runDetectionLoopCallback_def detectObjects_def)

theorem unready_tick_is_noop_witness:
  "readyState \<lparr>modelLoaded = False, videoMounted = True, canvasMounted = True, readyState = 2,
       contextAvailable = True, canvasWidth = 640, videoWidth = 640, videoHeight = 640,
       inputWidth = 640, inputHeight = 640,
       modelOutput = Inr [\<lparr>x_center = 100, y_center = 100, width = 50, height = 50, classScores = [0.9]\<rparr>],
       COCO_CLASSES = (\<lambda>c. ''person''), measureText = (\<lambda>l. 40)\<rparr> < 3
   \<and> runDetectionLoop
       \<lparr>modelLoaded = False, videoMounted = True, canvasMounted = True, readyState = 2,
       contextAvailable = True, canvasWidth = 640, videoWidth = 640, videoHeight = 640,
       inputWidth = 640, inputHeight = 640,
       modelOutput = Inr [\<lparr>x_center = 100, y_center = 100, width = 50, height = 50, classScores = [0.9]\<rparr>],
       COCO_CLASSES = (\<lambda>c. ''person''), measureText = (\<lambda>l. 40)\<rparr>
       \<lparr>canvas = [StrokeRect 1 2 3 4], console = [], steps = [Preprocess, Inference, Render]\<rparr>
     = Inr \<lparr>canvas = [StrokeRect 1 2 3 4], console = [], steps = [Preprocess, Inference, Render]\<rparr>
   \<and> runDetectionLoopCallback
       \<lparr>modelLoaded = False, videoMounted = True, canvasMounted = True, readyState = 2,
       contextAvailable = True, canvasWidth = 640, videoWidth = 640, videoHeight = 640,
       inputWidth = 640, inputHeight = 640,
       modelOutput = Inr [\<lparr>x_center = 100, y_center = 100, width = 50, height = 50, classScores = [0.9]\<rparr>],
       COCO_CLASSES = (\<lambda>c. ''person''), measureText = (\<lambda>l. 40)\<rparr>
       \<lparr>canvas = [StrokeRect 1 2 3 4], console = [], steps = [Preprocess, Inference, Render]\<rparr>
     = Inr \<lparr>canvas = [StrokeRect 1 2 3 4], console = [], steps = [Preprocess, Inference, Render]\<rparr>
   \<and> ssdReadyState \<lparr>ssdModelLoaded = True, ssdVideoMounted = True, ssdCanvasMounted = True,
       ssdReadyState = 3, ssdContextAvailable = True,
       detect = Inr [\<lparr>bbox = (10, 20, 30, 40), classOf = ''cat'', score = 0.8\<rparr>]\<rparr> \<noteq> 4
   \<and> detectObjects
       \<lparr>ssdModelLoaded = True, ssdVideoMounted = True, ssdCanvasMounted = True,
       ssdReadyState = 3, ssdContextAvailable = True,
       detect = Inr [\<lparr>bbox = (10, 20, 30, 40), classOf = ''cat'', score = 0.8\<rparr>]\<rparr>
       \<lparr>canvas = [StrokeRect 1 2 3 4], console = [], steps = [Preprocess, Inference, Render]\<rparr>
     = Inr \<lparr>canvas = [StrokeRect 1 2 3 4], console = [], steps = [Preprocess, Inference, Render]\<rparr>"
  using unready_tick_is_noop[of
      "\<lparr>modelLoaded = False, videoMounted = True, canvasMounted = True, readyState = 2,
       contextAvailable = True, canvasWidth = 640, videoWidth = 640, videoHeight = 640,
       inputWidth = 640, inputHeight = 640,
       modelOutput = Inr [\<lparr>x_center = 100, y_center = 100, width = 50, height = 50, classScores = [0.9]\<rparr>],
       COCO_CLASSES = (\<lambda>c. ''person''), measureText = (\<lambda>l. 40)\<rparr>"
      "\<lparr>canvas = [StrokeRect 1 2 3 4], console = [], steps = [Preprocess, Inference, Render]\<rparr>"
      "\<lparr>ssdModelLoaded = True, ssdVideoMounted = True, ssdCanvasMounted = True,
       ssdReadyState = 3, ssdContextAvailable = True,
       detect = Inr [\<lparr>bbox = (10, 20, 30, 40), classOf = ''cat'', score = 0.8\<rparr>]\<rparr>"]
  by simp

text \<open>
  A rejected tick ends the animation-frame loop, whatever frames would follow.
\<close>

lemma loop_stops_at_rejection:
  "runDetectionLoopCallback env pg = Inl failed \<Longrightarrow> loop (env # frames) pg = Inl failed"
  by simp







subsection \<open>Ticks in flight\<close>

text \<open>
  In the animation-frame loop a frame is requested only while no tick is in flight, and
  a tick starts only for a requested frame, so the two never add up to more than one.
\<close>

lemma rafStep_invariant:
  assumes "rafStep ev s = Some s'"
    and "ticksInFlight s + (if frameRequested s then 1 else 0) \<le> 1"
  shows "ticksInFlight s' + (if frameRequested s' then 1 else 0) \<le> 1"
  using assms by (cases ev) (auto simp: rafStep_def split: if_splits)

lemma rafRun_invariant:
  assumes "rafRun events s = Some s'"
    and "ticksInFlight s + (if frameRequested s then 1 else 0) \<le> 1"
  shows "ticksInFlight s' + (if frameRequested s' then 1 else 0) \<le> 1"
  using assms
proof (induction events arbitrary: s)
  case Nil
  then show ?case by simp
next
  case (Cons ev events)
  from Cons.prems(1) obtain s1 where s1: "rafStep ev s = Some s1" "rafRun events s1 = Some s'"
    by (auto split: option.splits)
  from rafStep_invariant[OF s1(1) Cons.prems(2)] Cons.IH[OF s1(2)] show ?case by blast
qed

lemma raf_no_fire_during_first_tick: "rafRun (Fire # events) rafStart = None"
  by (simp add: rafStep_def rafStart_def)

text \<open>
  Claim C6, as stated: in every execution of the detection loop no two ticks run
  concurrently. The interval starts a tick at every firing: after two firings with no
  settled inference in between, two ticks are in flight.
\<close>

theorem interval_ticks_overlap:
  "intervalRun [Fire, Fire] 0 = Some 2"
  by (simp add: intervalStep_def)

text \<open>
  Claim C6, amended: in every execution of the animation-frame loop of \<open>startLoop\<close>, no
  two ticks run concurrently: at most one tick is in flight at any time, and a frame,
  which starts the next tick, is requested only when the previous tick has settled,
  rendered or skipped, and no tick is in flight.
\<close>

theorem raf_ticks_never_overlap:
  assumes "rafRun events rafStart = Some s"
  shows "ticksInFlight s \<le> 1 \<and> (frameRequested s \<longrightarrow> ticksInFlight s = 0)"
proof -
  have "ticksInFlight rafStart + (if frameRequested rafStart then 1 else 0) \<le> 1"
    by (simp add: rafStart_def)
  from rafRun_invariant[OF assms this] show ?thesis by (auto split: if_splits)
qed

theorem raf_ticks_never_overlap_witness:
  "rafRun [Settle, Fire, Settle, Fire] rafStart = Some \<lparr>ticksInFlight = 1, frameRequested = False\<rparr>
   \<and> ticksInFlight \<lparr>ticksInFlight = 1, frameRequested = False\<rparr> \<le> 1
   \<and> rafRun [Settle] rafStart = Some \<lparr>ticksInFlight = 0, frameRequested = True\<rparr>
   \<and> ticksInFlight \<lparr>ticksInFlight = 0, frameRequested = True\<rparr> = 0"
proof -
  have a: "rafRun [Settle, Fire, Settle, Fire] rafStart
      = Some \<lparr>ticksInFlight = 1, frameRequested = False\<rparr>"
    by (simp add: rafStep_def rafStart_def)
  have b: "rafRun [Settle] rafStart = Some \<lparr>ticksInFlight = 0, frameRequested = True\<rparr>"
    by (simp add: rafStep_def rafStart_def)
  show ?thesis using a b raf_ticks_never_overlap[OF a] raf_ticks_never_overlap[OF b] by simp
qed

section \<open>Properties of the tensor bookkeeping\<close>

lemma alloc_record: "alloc \<lparr>nextId = n, live = l\<rparr> = (n, \<lparr>nextId = Suc n, live = l @ [n]\<rparr>)"
  by (simp add: alloc_def)

lemma dispose_record:
  "dispose ts \<lparr>nextId = n, live = l\<rparr> = \<lparr>nextId = n, live = filter (\<lambda>t. \<not> List.member ts t) l\<rparr>"
  by (simp add: dispose_def)

text \<open>
  On any engine whose live tensors were created before \<open>nextId\<close> and include the input,
  the call leaves four new tensors alive and removes the input: the count grows by three.
\<close>

lemma executeInference_record:
  assumes "\<forall>t \<in> set l. t < n" and "inp < n"
  shows "executeInference inp \<lparr>nextId = n, live = l\<rparr> =
     (n + 9,
      \<lparr>nextId = n + 10,
       live = filter (\<lambda>t. t \<noteq> inp) l @ [n + 1, n + 4, n + 6, n + 9]\<rparr>)"
  using assms
  by (auto simp add: executeInference_def alloc_record dispose_record intro!: filter_cong)

lemma executeInference_numTensors:
  assumes "distinct (live e)" and "\<forall>t \<in> set (live e). t < nextId e" and "inp \<in> set (live e)"
  shows "numTensors (snd (executeInference inp e)) = numTensors e + 3"
proof -
  obtain n l where e: "e = \<lparr>nextId = n, live = l\<rparr>" by (cases e) simp
  have lt: "\<forall>t \<in> set l. t < n" "inp < n" using assms e by auto
  have "filter (\<lambda>t. t \<noteq> inp) l = removeAll inp l" by (induction l) auto
  also have "\<dots> = remove1 inp l" using assms(1) e by (simp add: distinct_remove1_removeAll)
  finally have "length (filter (\<lambda>t. t \<noteq> inp) l) = length l - 1"
    using assms(3) e by (simp add: length_remove1)
  moreover have "length l > 0" using assms(3) e by auto
  ultimately show ?thesis
    by (simp add: e executeInference_record[OF lt] numTensors_def)
qed

text \<open>
  Claim C8: every intermediate tensor of a tick is released before the tick ends, so the
  tensor count returns to its baseline. \<open>executeInference\<close> releases the seven tensors it
  names, but not the results of \<open>abs\<close>, of the inner \<open>div\<close> and of \<open>tf.tensor\<close>, which it
  never names. Starting from an engine that holds only the input tensor, the call
  leaves those three tensors alive beside the returned prediction, and three remain
  once the caller has released the prediction too.
\<close>

theorem executeInference_leaks_three_tensors:
  "executeInference 0 \<lparr>nextId = 1, live = [0]\<rparr> = (10, \<lparr>nextId = 11, live = [2, 5, 7, 10]\<rparr>)
   \<and> numTensors (dispose [10] (snd (executeInference 0 \<lparr>nextId = 1, live = [0]\<rparr>))) = 3"
  by (simp add: executeInference_def alloc_record dispose_record numTensors_def)

end
